theory Spec2Isabelle
  imports Main "HOL-Library.Word"
begin

section \<open>JavaScript strings\<close>

text \<open>
  A JavaScript string is a sequence of 16-bit code units. Everything that
  \<^verbatim>\<open>static/script.js\<close> does with the paths of a response (\<^verbatim>\<open>split\<close>,
  \<^verbatim>\<open>pop\<close>, \<^verbatim>\<open>encodeURIComponent\<close>, template concatenation) works on code
  units, so that is what the model counts. Source literals are ASCII and are
  written through \<open>js\<close>.
\<close>

type_synonym code_unit = "16 word"

type_synonym jsstring = "code_unit list"

definition js :: "string \<Rightarrow> jsstring" where
  "js s = map (\<lambda>c. of_nat (of_char c)) s"

definition slash :: code_unit where
  "slash = 0x2F"

definition percent :: code_unit where
  "percent = 0x25"

subsection \<open>\<^verbatim>\<open>file.split('/').pop()\<close>\<close>

text \<open>
  \<^verbatim>\<open>String.prototype.split\<close> with a separator of one code unit: the segments
  between the separators, in order; the empty string gives one empty segment.
\<close>

fun js_split :: "'a \<Rightarrow> 'a list \<Rightarrow> 'a list list" where
  "js_split sep [] = [[]]"
| "js_split sep (c # cs) =
     (if c = sep then [] # js_split sep cs
      else (case js_split sep cs of
              [] \<Rightarrow> [[c]]
            | seg # segs \<Rightarrow> (c # seg) # segs))"

text \<open>
  \<^verbatim>\<open>Array.prototype.pop\<close> gives the last element, and \<^verbatim>\<open>undefined\<close> (here
  \<open>None\<close>) on an empty array.
\<close>

definition js_pop :: "'a list \<Rightarrow> 'a option" where
  "js_pop xs = (if xs = [] then None else Some (last xs))"

text \<open>
  The expression \<^verbatim>\<open>file.split('/').pop()\<close> of lines 39, 66 and 67. The array
  that \<^verbatim>\<open>split\<close> returns is never empty (lemma \<open>js_split_not_Nil\<close> below), so
  the \<^verbatim>\<open>undefined\<close> branch of \<^verbatim>\<open>pop\<close> is dead; it is written as the string
  \<^verbatim>\<open>"undefined"\<close> that a string-valued DOM attribute would show.
\<close>

definition split_pop :: "jsstring \<Rightarrow> jsstring" where
  "split_pop file =
     (case js_pop (js_split slash file) of
        None \<Rightarrow> js ''undefined''
      | Some s \<Rightarrow> s)"

subsection \<open>\<^verbatim>\<open>encodeURIComponent\<close>\<close>

datatype js_error =
    URIError
  | TypeError
  | SyntaxError
  | FetchRejected
  | NotOk

text \<open>
  ECMAScript's \<^verbatim>\<open>Encode(string, "")\<close>: letters, digits and \<^verbatim>\<open>-_.!~*'()\<close> are
  copied; every other code point is written as the percent-escaped bytes of
  its UTF-8 form; a surrogate code unit without its partner throws
  \<^verbatim>\<open>URIError\<close>.
\<close>

definition is_alpha :: "code_unit \<Rightarrow> bool" where
  "is_alpha c \<longleftrightarrow> (0x41 \<le> c \<and> c \<le> 0x5A) \<or> (0x61 \<le> c \<and> c \<le> 0x7A)"

definition is_digit :: "code_unit \<Rightarrow> bool" where
  "is_digit c \<longleftrightarrow> 0x30 \<le> c \<and> c \<le> 0x39"

definition is_mark :: "code_unit \<Rightarrow> bool" where
  "is_mark c \<longleftrightarrow> c \<in> set (js ''-_.!~*'') \<or> c = 0x27 \<or> c \<in> set (js ''()'')"

definition unescaped :: "code_unit \<Rightarrow> bool" where
  "unescaped c \<longleftrightarrow> is_alpha c \<or> is_digit c \<or> is_mark c"

definition is_lead :: "code_unit \<Rightarrow> bool" where
  "is_lead c \<longleftrightarrow> 0xD800 \<le> c \<and> c \<le> 0xDBFF"

definition is_trail :: "code_unit \<Rightarrow> bool" where
  "is_trail c \<longleftrightarrow> 0xDC00 \<le> c \<and> c \<le> 0xDFFF"

definition pair_code_point :: "code_unit \<Rightarrow> code_unit \<Rightarrow> nat" where
  "pair_code_point hi lo = (unat hi - 0xD800) * 0x400 + (unat lo - 0xDC00) + 0x10000"

definition utf8 :: "nat \<Rightarrow> nat list" where
  "utf8 cp =
     (if cp < 0x80 then [cp]
      else if cp < 0x800 then [0xC0 + cp div 64, 0x80 + cp mod 64]
      else if cp < 0x10000 then
        [0xE0 + cp div 4096, 0x80 + (cp div 64) mod 64, 0x80 + cp mod 64]
      else
        [0xF0 + cp div 262144, 0x80 + (cp div 4096) mod 64,
         0x80 + (cp div 64) mod 64, 0x80 + cp mod 64])"

definition hex_digit :: "nat \<Rightarrow> code_unit" where
  "hex_digit n = (if n < 10 then of_nat (0x30 + n) else of_nat (0x41 + (n - 10)))"

definition escape_octet :: "nat \<Rightarrow> jsstring" where
  "escape_octet b = [percent, hex_digit (b div 16), hex_digit (b mod 16)]"

definition escape_code_point :: "nat \<Rightarrow> jsstring" where
  "escape_code_point cp = concat (map escape_octet (utf8 cp))"

text \<open>Appending to the result string \<open>R\<close>, unless the rest of the scan throws.\<close>

definition emit :: "jsstring \<Rightarrow> js_error + jsstring \<Rightarrow> js_error + jsstring" where
  "emit s rest = (case rest of Inl e \<Rightarrow> Inl e | Inr r \<Rightarrow> Inr (s @ r))"

fun encodeURIComponent :: "jsstring \<Rightarrow> js_error + jsstring" where
  "encodeURIComponent [] = Inr []"
| "encodeURIComponent (c # cs) =
     (if unescaped c then emit [c] (encodeURIComponent cs)
      else if is_trail c then Inl URIError
      else if is_lead c then
        (case cs of
           [] \<Rightarrow> Inl URIError
         | d # ds \<Rightarrow>
             if is_trail d
             then emit (escape_code_point (pair_code_point c d)) (encodeURIComponent ds)
             else Inl URIError)
      else emit (escape_code_point (unat c)) (encodeURIComponent cs))"

text \<open>
  \<^verbatim>\<open>String.prototype.isWellFormed\<close>: no surrogate code unit stands without its
  partner.
\<close>

fun isWellFormed :: "jsstring \<Rightarrow> bool" where
  "isWellFormed [] = True"
| "isWellFormed (c # cs) =
     (if is_trail c then False
      else if is_lead c then
        (case cs of
           [] \<Rightarrow> False
         | d # ds \<Rightarrow> is_trail d \<and> isWellFormed ds)
      else isWellFormed cs)"

section \<open>The page of \<^verbatim>\<open>static/script.js\<close>\<close>

text \<open>
  The template \<^verbatim>\<open>templates/index.html\<close> is not among the sources, so the
  document is a parameter: its elements in document order, each with its
  \<^verbatim>\<open>id\<close> (\<open>None\<close> when absent or empty), its class tokens and its
  \<^verbatim>\<open>data-tab\<close> attribute. An element is referred to by its position, which
  plays the role of the object reference the script holds. Class tokens and
  ids are only compared for equality and are kept as plain strings.
\<close>

record element =
  elem_id :: "string option"
  classList :: "string list"
  dataset_tab :: "string option"

record list_item =
  li_textContent :: jsstring

record anchor =
  href :: jsstring
  textContent :: jsstring
  download :: jsstring

text \<open>
  The state the handlers read and write: the elements, the references taken
  at lines 3, 4, 8 and 9, the content of the three containers of lines 5 to 7
  (the text of \<^verbatim>\<open>#output pre\<close>, the children of \<^verbatim>\<open>#fileList\<close> and of
  \<^verbatim>\<open>#downloadLinks\<close>, three different nodes none of which holds another), and
  what the user was shown through \<^verbatim>\<open>alert\<close> and \<^verbatim>\<open>console.error\<close>.
\<close>

record page =
  nodes :: "element list"
  loadingDiv :: nat
  resultDiv :: nat
  tabButtons :: "nat list"
  tabContents :: "nat list"
  outputPre :: jsstring
  fileList :: "list_item list"
  downloadLinks :: "anchor list"
  alerts :: "string list"
  console :: "js_error list"

text \<open>A call either returns or throws; the effects made before a throw stay.\<close>

datatype outcome =
    Returns page
  | Throws js_error page

definition and_then :: "outcome \<Rightarrow> (page \<Rightarrow> outcome) \<Rightarrow> outcome" where
  "and_then r f = (case r of Returns p \<Rightarrow> f p | Throws e p \<Rightarrow> Throws e p)"

text \<open>\<^verbatim>\<open>Array.prototype.forEach\<close> with a callback that may throw.\<close>

fun forEach :: "('a \<Rightarrow> page \<Rightarrow> outcome) \<Rightarrow> 'a list \<Rightarrow> page \<Rightarrow> outcome" where
  "forEach f [] p = Returns p"
| "forEach f (x # xs) p = and_then (f x p) (forEach f xs)"

text \<open>\<^verbatim>\<open>xs[i]\<close>: \<^verbatim>\<open>undefined\<close> past the end.\<close>

definition js_index :: "'a list \<Rightarrow> nat \<Rightarrow> 'a option" where
  "js_index xs i = (if i < length xs then Some (xs ! i) else None)"

subsection \<open>Lookups of the document\<close>

definition getElementById :: "string \<Rightarrow> element list \<Rightarrow> nat option" where
  "getElementById s els =
     (if s = [] then None
      else find (\<lambda>i. elem_id (els ! i) = Some s) [0..<length els])"

definition querySelectorAll_class :: "string \<Rightarrow> element list \<Rightarrow> nat list" where
  "querySelectorAll_class c els =
     filter (\<lambda>i. c \<in> set (classList (els ! i))) [0..<length els]"

text \<open>
  Lines 2 to 9, for a document in which \<^verbatim>\<open>#loading\<close> and \<^verbatim>\<open>#result\<close> exist
  (the handlers dereference both outside any \<^verbatim>\<open>try\<close>).
\<close>

record document =
  elements :: "element list"
  pre_text :: jsstring
  list_items :: "list_item list"
  links :: "anchor list"

definition load :: "document \<Rightarrow> page option" where
  "load doc =
     (case getElementById ''loading'' (elements doc) of
        None \<Rightarrow> None
      | Some l \<Rightarrow>
          (case getElementById ''result'' (elements doc) of
             None \<Rightarrow> None
           | Some r \<Rightarrow>
               Some \<lparr>nodes = elements doc,
                     loadingDiv = l,
                     resultDiv = r,
                     tabButtons = querySelectorAll_class ''tab-btn'' (elements doc),
                     tabContents = querySelectorAll_class ''tab-content'' (elements doc),
                     outputPre = pre_text doc,
                     fileList = list_items doc,
                     downloadLinks = links doc,
                     alerts = [],
                     console = []\<rparr>))"

subsection \<open>\<^verbatim>\<open>classList\<close>\<close>

definition add_token :: "string \<Rightarrow> string list \<Rightarrow> string list" where
  "add_token t ts = (if t \<in> set ts then ts else ts @ [t])"

definition classList_add :: "nat \<Rightarrow> string \<Rightarrow> page \<Rightarrow> page" where
  "classList_add i t p =
     p\<lparr>nodes := (nodes p)[i := (nodes p ! i)\<lparr>classList := add_token t (classList (nodes p ! i))\<rparr>]\<rparr>"

definition classList_remove :: "nat \<Rightarrow> string \<Rightarrow> page \<Rightarrow> page" where
  "classList_remove i t p =
     p\<lparr>nodes := (nodes p)[i := (nodes p ! i)\<lparr>classList := removeAll t (classList (nodes p ! i))\<rparr>]\<rparr>"

definition has_class :: "page \<Rightarrow> nat \<Rightarrow> string \<Rightarrow> bool" where
  "has_class p i t \<longleftrightarrow> t \<in> set (classList (nodes p ! i))"

subsection \<open>\<^verbatim>\<open>addDownloadLink\<close> (lines 63 to 69)\<close>

text \<open>\<^verbatim>\<open>label || fallback\<close>: \<^verbatim>\<open>undefined\<close> and the empty string are falsy.\<close>

definition js_or :: "jsstring option \<Rightarrow> jsstring \<Rightarrow> jsstring" where
  "js_or label fallback =
     (case label of
        None \<Rightarrow> fallback
      | Some s \<Rightarrow> if s = [] then fallback else s)"

definition addDownloadLink :: "jsstring \<Rightarrow> jsstring option \<Rightarrow> page \<Rightarrow> outcome" where
  "addDownloadLink file label p =
     (case encodeURIComponent file of
        Inl e \<Rightarrow> Throws e p
      | Inr enc \<Rightarrow>
          Returns (p\<lparr>downloadLinks := downloadLinks p @
            [\<lparr>href = js ''/download/'' @ enc,
              textContent = js_or label (split_pop file),
              download = split_pop file\<rparr>]\<rparr>))"

subsection \<open>\<^verbatim>\<open>activateTab\<close> (lines 78 to 84)\<close>

text \<open>
  \<^verbatim>\<open>button.dataset.tab\<close> is \<^verbatim>\<open>undefined\<close> without the attribute, which
  \<^verbatim>\<open>getElementById\<close> reads as the id \<^verbatim>\<open>"undefined"\<close>.
\<close>

definition tab_key :: "element \<Rightarrow> string" where
  "tab_key e = (case dataset_tab e of None \<Rightarrow> ''undefined'' | Some s \<Rightarrow> s)"

text \<open>
  The argument is \<open>None\<close> for \<^verbatim>\<open>undefined\<close> (\<^verbatim>\<open>tabButtons[0]\<close> of a page
  without tab buttons). Reading \<^verbatim>\<open>classList\<close> of \<^verbatim>\<open>undefined\<close> or of the
  \<^verbatim>\<open>null\<close> that \<^verbatim>\<open>getElementById\<close> gives for an unknown id throws
  \<^verbatim>\<open>TypeError\<close>.
\<close>

definition activateTab :: "nat option \<Rightarrow> page \<Rightarrow> outcome" where
  "activateTab button p =
     (let p1 = fold (\<lambda>btn. classList_remove btn ''active'') (tabButtons p) p;
          p2 = fold (\<lambda>content. classList_remove content ''active'') (tabContents p1) p1
      in case button of
           None \<Rightarrow> Throws TypeError p2
         | Some b \<Rightarrow>
             (let p3 = classList_add b ''active'' p2
              in case getElementById (tab_key (nodes p3 ! b)) (nodes p3) of
                   None \<Rightarrow> Throws TypeError p3
                 | Some t \<Rightarrow> Returns (classList_add t ''active'' p3)))"

text \<open>
  The click listener of lines 72 to 76; an exception that leaves it is only
  reported by the browser, the page stays as it was when it was thrown.
\<close>

definition tab_click :: "nat \<Rightarrow> page \<Rightarrow> page" where
  "tab_click button p =
     (case activateTab (Some button) p of
        Returns q \<Rightarrow> q
      | Throws e q \<Rightarrow> q)"

subsection \<open>The submit listener (lines 11 to 61)\<close>

text \<open>
  The JSON body of the contract, \<^verbatim>\<open>{refined_output, created_files, log_file}\<close>.
  The record is extensible: whatever further fields a body carries are its
  \<open>more\<close> part.
\<close>

record data =
  refined_output :: jsstring
  created_files :: "jsstring list"
  log_file :: jsstring

text \<open>
  What \<^verbatim>\<open>await fetch(...)\<close> and \<^verbatim>\<open>await response.json()\<close> deliver: the
  request is rejected, or a response arrives with its \<^verbatim>\<open>ok\<close> flag and a body
  that parses (\<open>Some\<close>) or does not (\<open>None\<close>).
\<close>

datatype 'a fetched =
    Rejected
  | Response bool "'a data_scheme option"

definition appendChild_li :: "jsstring \<Rightarrow> page \<Rightarrow> page" where
  "appendChild_li file p = p\<lparr>fileList := fileList p @ [\<lparr>li_textContent = split_pop file\<rparr>]\<rparr>"

definition try_block :: "'a fetched \<Rightarrow> page \<Rightarrow> outcome" where
  "try_block r p =
     (case r of
        Rejected \<Rightarrow> Throws FetchRejected p
      | Response ok body \<Rightarrow>
          if \<not> ok then Throws NotOk p
          else
            (case body of
               None \<Rightarrow> Throws SyntaxError p
             | Some d \<Rightarrow>
                 (let p1 = p\<lparr>outputPre := refined_output d\<rparr>;
                      p2 = fold appendChild_li (created_files d) (p1\<lparr>fileList := []\<rparr>);
                      p3 = p2\<lparr>downloadLinks := []\<rparr>
                  in and_then (forEach (\<lambda>file. addDownloadLink file None) (created_files d) p3)
                       (\<lambda>p4. and_then (addDownloadLink (log_file d) (Some (js ''Log File'')) p4)
                          (\<lambda>p5. activateTab (js_index (tabButtons p5) 0)
                             (classList_add (loadingDiv p5) ''hidden''
                                (classList_remove (resultDiv p5) ''hidden'' p5)))))))"

definition catch_block :: "js_error \<Rightarrow> page \<Rightarrow> page" where
  "catch_block e p =
     classList_add (loadingDiv p) ''hidden''
       (p\<lparr>console := console p @ [e],
          alerts := alerts p @ [''An error occurred. Please try again.'']\<rparr>)"

text \<open>
  The listener runs in two steps. Lines 12 to 18 run when the form is
  submitted; lines 26 to 60 run when \<^verbatim>\<open>fetch\<close> and \<^verbatim>\<open>response.json()\<close> have
  settled. While the listener awaits, the browser may handle other events,
  another submission among them.
\<close>

definition submit_begin :: "page \<Rightarrow> page" where
  "submit_begin p =
     classList_add (resultDiv p) ''hidden'' (classList_remove (loadingDiv p) ''hidden'' p)"

definition submit_settle :: "'a fetched \<Rightarrow> page \<Rightarrow> page" where
  "submit_settle r p =
     (case try_block r p of
        Returns q \<Rightarrow> q
      | Throws e q \<Rightarrow> catch_block e q)"

text \<open>A submission during which no other event is handled.\<close>

definition submit :: "'a fetched \<Rightarrow> page \<Rightarrow> page" where
  "submit r p = submit_settle r (submit_begin p)"

text \<open>
  The references of a loaded page point at elements of the document, and
  \<^verbatim>\<open>#loading\<close> and \<^verbatim>\<open>#result\<close> are two elements.
\<close>

definition wf_page :: "page \<Rightarrow> bool" where
  "wf_page p \<longleftrightarrow>
     loadingDiv p < length (nodes p) \<and>
     resultDiv p < length (nodes p) \<and>
     loadingDiv p \<noteq> resultDiv p \<and>
     list_all (\<lambda>i. i < length (nodes p)) (tabButtons p) \<and>
     list_all (\<lambda>i. i < length (nodes p)) (tabContents p)"

subsection \<open>A concrete document\<close>

text \<open>
  A document with the loading indicator, the result section and three tabs
  (output, files, downloads), the first of them active and both sections
  hidden; the theorems below are evaluated on it.
\<close>

definition sample_document :: document where
  "sample_document =
     \<lparr>elements =
        [\<lparr>elem_id = Some ''loading'', classList = [''hidden''], dataset_tab = None\<rparr>,
         \<lparr>elem_id = Some ''result'', classList = [''hidden''], dataset_tab = None\<rparr>,
         \<lparr>elem_id = None, classList = [''tab-btn'', ''active''], dataset_tab = Some ''output''\<rparr>,
         \<lparr>elem_id = None, classList = [''tab-btn''], dataset_tab = Some ''files''\<rparr>,
         \<lparr>elem_id = None, classList = [''tab-btn''], dataset_tab = Some ''downloads''\<rparr>,
         \<lparr>elem_id = Some ''output'', classList = [''tab-content'', ''active''], dataset_tab = None\<rparr>,
         \<lparr>elem_id = Some ''files'', classList = [''tab-content''], dataset_tab = None\<rparr>,
         \<lparr>elem_id = Some ''downloads'', classList = [''tab-content''], dataset_tab = None\<rparr>],
      pre_text = [],
      list_items = [],
      links = []\<rparr>"

definition sample_page :: page where
  "sample_page =
     \<lparr>nodes = elements sample_document,
      loadingDiv = 0,
      resultDiv = 1,
      tabButtons = [2, 3, 4],
      tabContents = [5, 6, 7],
      outputPre = [],
      fileList = [],
      downloadLinks = [],
      alerts = [],
      console = []\<rparr>"

section \<open>The generation pipeline of the specification\<close>

text \<open>
  The backend of the repository (\<^verbatim>\<open>main.py\<close> and \<^verbatim>\<open>app.py\<close>: the Objective
  Decomposer, the Task Executor, the Refiner, the File Materializer and the
  Pipeline Driver) is not among the sources; only its client
  \<^verbatim>\<open>static/script.js\<close> is. The definitions of this section are written from
  sections 3, 4 and 6 of the specification. The language model and the file
  system are outside the pipeline: a model call is an oracle that answers
  the attempts in turn, and what the Materializer does to the file system is
  recorded as the writes it asks for. Backoff delays and the content of the
  run log are left out; the log is the text of the one log file.
\<close>

text \<open>Modelled from the spec: the error taxonomy of section 7, as far as it is fatal or
  raised by a stage (the stages' code is not among the sources).\<close>

datatype pipeline_error =
    DecompositionError
  | RefinementError
  | IOError

text \<open>Modelled from the spec: the Objective and the SubTask of the data model of section 3
  (their declarations are not among the sources).\<close>

record objective =
  obj_text :: string
  obj_search :: bool

record subtask =
  st_id :: nat
  st_title :: string
  st_description :: string
  st_target :: "string option"
  st_language :: "string option"

text \<open>Modelled from the spec: the language-model client of section 6,
  \<^verbatim>\<open>complete(prompt, options) -> text\<close>, which may fail with an error that is
  transient or permanent (the client is not among the sources).\<close>

datatype completion =
    Completed string
  | Transient
  | Permanent

text \<open>Modelled from the spec: the configured number of attempts of section 4.5 and the
  configured maximum of sub-tasks of section 4.1 (the configuration is not among the
  sources).\<close>

record config =
  max_attempts :: nat
  max_subtasks :: nat

text \<open>Modelled from the spec: the shared retry policy of section 4.5 (the stages that
  use it are not among the sources). Up to N attempts; a permanent failure stops at once;
  a transient failure and an answer that the stage cannot accept (empty, malformed or
  not parseable) go to the next attempt; \<open>None\<close> is the stage's error.\<close>

fun attempts ::
  "nat \<Rightarrow> nat \<Rightarrow> (nat \<Rightarrow> completion) \<Rightarrow> (string \<Rightarrow> 'a option) \<Rightarrow> 'a option" where
  "attempts 0 i call accept = None"
| "attempts (Suc n) i call accept =
     (case call i of
        Permanent \<Rightarrow> None
      | Transient \<Rightarrow> attempts n (Suc i) call accept
      | Completed text \<Rightarrow>
          (case accept text of
             Some v \<Rightarrow> Some v
           | None \<Rightarrow> attempts n (Suc i) call accept))"

text \<open>Modelled from the spec: \<^verbatim>\<open>decompose\<close> of section 4.1 (the Decomposer is not among
  the sources). It fails with \<^verbatim>\<open>DecompositionError\<close> when the model's answer is empty,
  malformed or not parseable after the retries, and truncates a longer proposal to the
  configured maximum. The grammar of the answer is left open by the specification and is
  the parameter \<open>parse\<close>.\<close>

definition decompose ::
  "config \<Rightarrow> (string \<Rightarrow> subtask list option) \<Rightarrow> (string \<Rightarrow> nat \<Rightarrow> completion) \<Rightarrow>
   objective \<Rightarrow> pipeline_error + subtask list" where
  "decompose cfg parse complete obj =
     (case attempts (max_attempts cfg) 0 (complete (obj_text obj))
             (\<lambda>text. case parse text of
                       None \<Rightarrow> None
                     | Some ts \<Rightarrow> if ts = [] then None else Some ts) of
        None \<Rightarrow> Inl DecompositionError
      | Some ts \<Rightarrow> Inr (take (max_subtasks cfg) ts))"

text \<open>Modelled from the spec: the GenerationResult, the RefinedOutput and the RunResult
  of the data model of section 3 (their declarations are not among the sources).\<close>

datatype validation_status =
    Passed
  | Failed_validation
  | Skipped_no_validator

record file_entry =
  fe_path :: string
  fe_language :: string
  fe_content :: string

record generation_result =
  gr_subtask :: nat
  gr_raw :: string
  gr_entries :: "file_entry list"
  gr_status :: validation_status
  gr_attempts :: nat

record refined_output =
  ro_narrative :: string
  ro_files :: "file_entry list"





text \<open>Modelled from the spec: \<^verbatim>\<open>materialize\<close> of section 4.6 and the run directory of
  section 6 (the Materializer is not among the sources). It creates the run directory,
  writes every file entry at its relative path under that directory and the log to one
  log file of the same directory, and returns the served paths of the files and of the
  log; \<^verbatim>\<open>IOError\<close> when the destination is not writable, and then nothing is written.
  The writes are recorded as what is asked of the file system: the directory, each
  entry's relative path with its content, and the log file's name with its text. How the
  file system resolves a relative path, which directories it creates on the way and in
  which order the log and the entries reach it are not part of the model.\<close>

record destination =
  run_dir :: string
  log_name :: string
  writable :: bool





record environment =
  parse_subtasks :: "string \<Rightarrow> subtask list option"
  complete_decompose :: "string \<Rightarrow> nat \<Rightarrow> completion"
  execute :: "subtask \<Rightarrow> generation_result"
  parse_refined :: "string \<Rightarrow> refined_output option"
  complete_refine :: "nat \<Rightarrow> completion"
  dest :: destination
  log_text :: string



subsection \<open>A concrete run\<close>

text \<open>
  A configuration of three attempts and at most two sub-tasks; a model that
  fails once and then proposes three sub-tasks; an Executor that yields one
  file per sub-task with a given validation status; a Refiner whose every
  attempt fails.
\<close>

definition sample_config :: config where
  "sample_config = \<lparr>max_attempts = 3, max_subtasks = 2\<rparr>"

definition sample_objective :: objective where
  "sample_objective = \<lparr>obj_text = ''a command line calculator'', obj_search = False\<rparr>"

definition sample_task :: "nat \<Rightarrow> subtask" where
  "sample_task n =
     \<lparr>st_id = n, st_title = ''step'', st_description = ''write one module'',
      st_target = None, st_language = Some ''python''\<rparr>"

definition sample_complete :: "string \<Rightarrow> nat \<Rightarrow> completion" where
  "sample_complete prompt i = (if i = 0 then Transient else Completed ''three steps'')"

definition sample_parse_subtasks :: "string \<Rightarrow> subtask list option" where
  "sample_parse_subtasks text =
     (if text = ''three steps'' then Some [sample_task 0, sample_task 1, sample_task 2]
      else None)"





section \<open>Properties of the string operations\<close>

lemma js_split_not_Nil: "js_split sep xs \<noteq> []"
  by (induction xs) (auto split: list.splits)

lemma js_split_no_sep: "sep \<notin> set xs \<Longrightarrow> js_split sep xs = [xs]"
  by (induction xs) auto

lemma js_split_sep_tl: "tl (js_split sep (pre @ sep # suf)) \<noteq> []"
  by (induction pre) (auto split: list.splits simp: js_split_not_Nil)

lemma last_js_split_append:
  "last (js_split sep (pre @ sep # suf)) = last (js_split sep suf)"
proof (induction pre)
  case Nil
  then show ?case by (simp add: js_split_not_Nil)
next
  case (Cons c pre)
  show ?case
  proof (cases "c = sep")
    case True
    with Cons show ?thesis by (simp add: js_split_not_Nil)
  next
    case False
    obtain seg segs where s: "js_split sep (pre @ sep # suf) = seg # segs"
      using js_split_not_Nil[of sep "pre @ sep # suf"]
      by (cases "js_split sep (pre @ sep # suf)") auto
    have "segs \<noteq> []" using js_split_sep_tl[of sep pre suf] s by simp
    with s False Cons show ?thesis by simp
  qed
qed

lemma split_pop_last: "split_pop file = last (js_split slash file)"
  by (simp add: split_pop_def js_pop_def js_split_not_Nil)

lemma split_pop_no_slash: "slash \<notin> set file \<Longrightarrow> split_pop file = file"
  by (simp add: split_pop_last js_split_no_sep)

lemma split_pop_after_last_slash:
  "slash \<notin> set suf \<Longrightarrow> split_pop (pre @ slash # suf) = suf"
  by (simp add: split_pop_last last_js_split_append js_split_no_sep)

lemma split_pop_slash_free: "slash \<notin> set (split_pop file)"
proof (cases "slash \<in> set file")
  case True
  then obtain pre suf where "file = pre @ slash # suf" "slash \<notin> set suf"
    by (meson split_list_last)
  then show ?thesis by (simp add: split_pop_after_last_slash)
next
  case False
  then show ?thesis by (simp add: split_pop_no_slash)
qed

lemma hex_digit_unat:
  "n < 16 \<Longrightarrow> unat (hex_digit n) = (if n < 10 then 48 + n else 55 + n)"
  unfolding hex_digit_def by (simp del: of_nat_add of_nat_diff add: unat_of_nat)

lemma hex_digit_not_slash: "n < 16 \<Longrightarrow> hex_digit n \<noteq> slash"
proof
  assume "n < 16" "hex_digit n = slash"
  then have "unat (hex_digit n) = unat slash" by simp
  with \<open>n < 16\<close> show False by (simp add: hex_digit_unat slash_def split: if_splits)
qed

lemma utf8_bytes: "cp < 0x110000 \<Longrightarrow> b \<in> set (utf8 cp) \<Longrightarrow> b < 256"
  by (auto simp: utf8_def split: if_splits)

lemma escape_octet_no_slash: "b < 256 \<Longrightarrow> slash \<notin> set (escape_octet b)"
  using hex_digit_not_slash[of "b div 16"] hex_digit_not_slash[of "b mod 16"]
  by (auto simp: escape_octet_def percent_def slash_def)

lemma escape_code_point_no_slash:
  "cp < 0x110000 \<Longrightarrow> slash \<notin> set (escape_code_point cp)"
  by (auto simp: escape_code_point_def dest: utf8_bytes escape_octet_no_slash)

lemma pair_code_point_bound:
  "is_lead hi \<Longrightarrow> is_trail lo \<Longrightarrow> pair_code_point hi lo < 0x110000"
proof -
  assume "is_lead hi" "is_trail lo"
  then have a: "unat hi \<le> 56319" "unat lo \<le> 57343"
    by (simp_all add: is_lead_def is_trail_def word_le_nat_alt)
  then have "unat hi - 55296 \<le> 1023" "unat lo - 56320 \<le> 1023"
    by linarith+
  then have "(unat hi - 55296) * 1024 \<le> 1023 * 1024" "unat lo - 56320 \<le> 1023"
    by (simp_all only: mult_le_mono1)
  then show ?thesis unfolding pair_code_point_def by simp
qed

lemma unat_code_unit_bound: "unat (c :: code_unit) < 0x110000"
  using unsigned_less[of c, where ?'a = nat] by simp

lemma unescaped_not_slash: "unescaped c \<Longrightarrow> c \<noteq> slash"
  by (auto simp: unescaped_def is_alpha_def is_digit_def is_mark_def slash_def js_def)

lemma unescaped_not_surrogate: "unescaped c \<Longrightarrow> \<not> is_trail c \<and> \<not> is_lead c"
  by (auto simp: unescaped_def is_alpha_def is_digit_def is_mark_def is_trail_def
      is_lead_def js_def word_le_nat_alt)

lemma emit_Inr_iff: "emit s rest = Inr r \<longleftrightarrow> (\<exists>r'. rest = Inr r' \<and> r = s @ r')"
  by (auto simp: emit_def split: sum.splits)

lemma emit_Inl_iff: "emit s rest = Inl e \<longleftrightarrow> rest = Inl e"
  by (auto simp: emit_def split: sum.splits)

lemma encodeURIComponent_no_slash:
  "encodeURIComponent f = Inr r \<Longrightarrow> slash \<notin> set r"
proof (induction f arbitrary: r rule: encodeURIComponent.induct)
  case 1
  then show ?case by simp
next
  case (2 c cs)
  show ?case
  proof (cases "unescaped c")
    case True
    with 2 show ?thesis
      by (auto simp: emit_Inr_iff dest: unescaped_not_slash)
  next
    case False
    note esc = this
    show ?thesis
    proof (cases "is_lead c")
      case True
      with esc "2.prems" obtain d ds r' where
        cs: "cs = d # ds" and d: "is_trail d" and nt: "\<not> is_trail c"
        and r': "encodeURIComponent ds = Inr r'"
        and r: "r = escape_code_point (pair_code_point c d) @ r'"
        by (auto simp: emit_Inr_iff split: list.splits if_splits)
      from "2.IH"(2)[OF esc nt True cs d r']
        escape_code_point_no_slash[OF pair_code_point_bound[OF True d]] r
      show ?thesis by simp
    next
      case False
      with esc "2.prems" obtain r' where r': "encodeURIComponent cs = Inr r'"
        and nt: "\<not> is_trail c"
        and r: "r = escape_code_point (unat c) @ r'"
        by (auto simp: emit_Inr_iff split: if_splits)
      from "2.IH"(3)[OF esc nt False r']
        escape_code_point_no_slash[OF unat_code_unit_bound, of c] r
      show ?thesis by simp
    qed
  qed
qed

lemma encodeURIComponent_throws_iff:
  "encodeURIComponent f = Inl e \<longleftrightarrow> (e = URIError \<and> \<not> isWellFormed f)"
proof (induction f arbitrary: e rule: encodeURIComponent.induct)
  case 1
  then show ?case by simp
next
  case (2 c cs)
  show ?case
  proof (cases "unescaped c")
    case True
    with 2 unescaped_not_surrogate[OF True] show ?thesis
      by (simp add: emit_Inl_iff)
  next
    case False
    with 2 show ?thesis
      by (auto simp: emit_Inl_iff split: list.splits)
  qed
qed

lemma encodeURIComponent_returns:
  "isWellFormed f \<Longrightarrow> \<exists>r. encodeURIComponent f = Inr r"
proof (cases "encodeURIComponent f")
  case (Inl e)
  moreover assume "isWellFormed f"
  ultimately show ?thesis using encodeURIComponent_throws_iff[of f e] by simp
next
  case (Inr r)
  then show ?thesis by simp
qed

section \<open>Frame properties of the class operations\<close>

lemma classList_add_fields [simp]:
  "loadingDiv (classList_add i t p) = loadingDiv p"
  "resultDiv (classList_add i t p) = resultDiv p"
  "tabButtons (classList_add i t p) = tabButtons p"
  "tabContents (classList_add i t p) = tabContents p"
  "outputPre (classList_add i t p) = outputPre p"
  "fileList (classList_add i t p) = fileList p"
  "downloadLinks (classList_add i t p) = downloadLinks p"
  "alerts (classList_add i t p) = alerts p"
  "console (classList_add i t p) = console p"
  "length (nodes (classList_add i t p)) = length (nodes p)"
  by (simp_all add: classList_add_def)

lemma classList_remove_fields [simp]:
  "loadingDiv (classList_remove i t p) = loadingDiv p"
  "resultDiv (classList_remove i t p) = resultDiv p"
  "tabButtons (classList_remove i t p) = tabButtons p"
  "tabContents (classList_remove i t p) = tabContents p"
  "outputPre (classList_remove i t p) = outputPre p"
  "fileList (classList_remove i t p) = fileList p"
  "downloadLinks (classList_remove i t p) = downloadLinks p"
  "alerts (classList_remove i t p) = alerts p"
  "console (classList_remove i t p) = console p"
  "length (nodes (classList_remove i t p)) = length (nodes p)"
  by (simp_all add: classList_remove_def)

lemma nth_classList_add:
  "nodes (classList_add i t p) ! j =
     (if j = i \<and> i < length (nodes p)
      then (nodes p ! i)\<lparr>classList := add_token t (classList (nodes p ! i))\<rparr>
      else nodes p ! j)"
  by (cases "i < length (nodes p)") (auto simp: classList_add_def list_update_beyond not_less)

lemma nth_classList_remove:
  "nodes (classList_remove i t p) ! j =
     (if j = i \<and> i < length (nodes p)
      then (nodes p ! i)\<lparr>classList := removeAll t (classList (nodes p ! i))\<rparr>
      else nodes p ! j)"
  by (cases "i < length (nodes p)") (auto simp: classList_remove_def list_update_beyond not_less)

lemma set_add_token [simp]: "set (add_token t ts) = insert t (set ts)"
  by (auto simp: add_token_def)

lemma has_class_add:
  "has_class (classList_add i t p) j u \<longleftrightarrow>
     has_class p j u \<or> (j = i \<and> i < length (nodes p) \<and> u = t)"
  by (auto simp: has_class_def nth_classList_add)

lemma has_class_remove:
  "has_class (classList_remove i t p) j u \<longleftrightarrow>
     has_class p j u \<and> \<not> (j = i \<and> i < length (nodes p) \<and> u = t)"
  by (auto simp: has_class_def nth_classList_remove)

lemma ids_classList_add [simp]:
  "map elem_id (nodes (classList_add i t p)) = map elem_id (nodes p)"
  by (rule nth_equalityI) (simp_all add: nth_classList_add)

lemma ids_classList_remove [simp]:
  "map elem_id (nodes (classList_remove i t p)) = map elem_id (nodes p)"
  by (rule nth_equalityI) (simp_all add: nth_classList_remove)

lemma tab_key_classList_add [simp]:
  "tab_key (nodes (classList_add i t p) ! j) = tab_key (nodes p ! j)"
  by (simp add: nth_classList_add tab_key_def)

lemma tab_key_classList_remove [simp]:
  "tab_key (nodes (classList_remove i t p) ! j) = tab_key (nodes p ! j)"
  by (simp add: nth_classList_remove tab_key_def)


lemma getElementById_less:
  "getElementById s els = Some i \<Longrightarrow> i < length els"
  by (auto simp: getElementById_def find_Some_iff split: if_splits)

lemma getElementById_id:
  "getElementById s els = Some i \<Longrightarrow> elem_id (els ! i) = Some s"
  by (auto simp: getElementById_def find_Some_iff split: if_splits)

lemma wf_classList_add [simp]: "wf_page (classList_add i t p) = wf_page p"
  by (simp add: wf_page_def)

lemma wf_classList_remove [simp]: "wf_page (classList_remove i t p) = wf_page p"
  by (simp add: wf_page_def)

section \<open>Properties of \<^verbatim>\<open>activateTab\<close>\<close>

lemma fold_remove_fields [simp]:
  "loadingDiv (fold (\<lambda>i. classList_remove i t) xs p) = loadingDiv p"
  "resultDiv (fold (\<lambda>i. classList_remove i t) xs p) = resultDiv p"
  "tabButtons (fold (\<lambda>i. classList_remove i t) xs p) = tabButtons p"
  "tabContents (fold (\<lambda>i. classList_remove i t) xs p) = tabContents p"
  "outputPre (fold (\<lambda>i. classList_remove i t) xs p) = outputPre p"
  "fileList (fold (\<lambda>i. classList_remove i t) xs p) = fileList p"
  "downloadLinks (fold (\<lambda>i. classList_remove i t) xs p) = downloadLinks p"
  "alerts (fold (\<lambda>i. classList_remove i t) xs p) = alerts p"
  "console (fold (\<lambda>i. classList_remove i t) xs p) = console p"
  "length (nodes (fold (\<lambda>i. classList_remove i t) xs p)) = length (nodes p)"
  by (induction xs arbitrary: p) simp_all

lemma nth_fold_remove:
  "nodes (fold (\<lambda>i. classList_remove i t) xs p) ! j =
     (if j \<in> set xs \<and> j < length (nodes p)
      then (nodes p ! j)\<lparr>classList := removeAll t (classList (nodes p ! j))\<rparr>
      else nodes p ! j)"
proof (induction xs arbitrary: p)
  case Nil
  then show ?case by simp
next
  case (Cons x xs)
  show ?case
    by (auto simp: Cons.IH nth_classList_remove)
qed

lemma has_class_fold_remove:
  "has_class (fold (\<lambda>i. classList_remove i t) xs p) j u \<longleftrightarrow>
     has_class p j u \<and> \<not> (j \<in> set xs \<and> j < length (nodes p) \<and> u = t)"
  by (auto simp: has_class_def nth_fold_remove)

lemma ids_fold_remove [simp]:
  "map elem_id (nodes (fold (\<lambda>i. classList_remove i t) xs p)) = map elem_id (nodes p)"
  by (induction xs arbitrary: p) simp_all

lemma tab_key_fold_remove [simp]:
  "tab_key (nodes (fold (\<lambda>i. classList_remove i t) xs p) ! j) = tab_key (nodes p ! j)"
  by (induction xs arbitrary: p) simp_all

lemma wf_fold_remove [simp]:
  "wf_page (fold (\<lambda>i. classList_remove i t) xs p) = wf_page p"
  by (simp add: wf_page_def)



lemma removeAll_add_token [simp]: "removeAll t (add_token t ts) = removeAll t ts"
  by (simp add: add_token_def)

lemma add_token_idem [simp]: "add_token t (add_token t ts) = add_token t ts"
  by (simp add: add_token_def)

lemma activateTab_fields:
  assumes "activateTab button p = Returns p' \<or> activateTab button p = Throws e p'"
  shows "loadingDiv p' = loadingDiv p \<and> resultDiv p' = resultDiv p \<and>
         tabButtons p' = tabButtons p \<and> tabContents p' = tabContents p \<and>
         outputPre p' = outputPre p \<and> fileList p' = fileList p \<and>
         downloadLinks p' = downloadLinks p \<and> alerts p' = alerts p \<and>
         console p' = console p \<and> length (nodes p') = length (nodes p) \<and>
         map elem_id (nodes p') = map elem_id (nodes p)"
  using assms
  by (auto simp: activateTab_def Let_def split: option.splits)


section \<open>\<^verbatim>\<open>addDownloadLink\<close>\<close>

lemma addDownloadLink_returns:
  "encodeURIComponent file = Inr enc \<Longrightarrow>
   addDownloadLink file label p =
     Returns (p\<lparr>downloadLinks := downloadLinks p @
       [\<lparr>href = js ''/download/'' @ enc,
         textContent = js_or label (split_pop file),
         download = split_pop file\<rparr>]\<rparr>)"
  by (simp add: addDownloadLink_def)

lemma addDownloadLink_throws:
  "\<not> isWellFormed file \<Longrightarrow> addDownloadLink file label p = Throws URIError p"
proof -
  assume "\<not> isWellFormed file"
  then have "encodeURIComponent file = Inl URIError"
    by (simp add: encodeURIComponent_throws_iff)
  then show ?thesis by (simp add: addDownloadLink_def)
qed

section \<open>Properties of the submit listener\<close>

lemma fold_appendChild_li:
  "fold appendChild_li files p =
     p\<lparr>fileList := fileList p @ map (\<lambda>f. \<lparr>li_textContent = split_pop f\<rparr>) files\<rparr>"
  by (induction files arbitrary: p) (simp_all add: appendChild_li_def)

lemma forEach_addDownloadLink:
  "list_all isWellFormed files \<Longrightarrow>
   \<exists>as. forEach (\<lambda>f. addDownloadLink f None) files p =
          Returns (p\<lparr>downloadLinks := downloadLinks p @ as\<rparr>) \<and>
        list_all2 (\<lambda>f a. \<exists>enc. encodeURIComponent f = Inr enc \<and>
                     a = \<lparr>href = js ''/download/'' @ enc,
                          textContent = split_pop f,
                          download = split_pop f\<rparr>) files as"
proof (induction files arbitrary: p)
  case Nil
  then show ?case by simp
next
  case (Cons f fs)
  from Cons.prems obtain enc where enc: "encodeURIComponent f = Inr enc"
    using encodeURIComponent_returns by auto
  let ?a = "\<lparr>href = js ''/download/'' @ enc, textContent = split_pop f, download = split_pop f\<rparr>"
  let ?q = "p\<lparr>downloadLinks := downloadLinks p @ [?a]\<rparr>"
  have step: "addDownloadLink f None p = Returns ?q"
    using addDownloadLink_returns[OF enc, of None p] by (simp add: js_or_def)
  from Cons.prems have "list_all isWellFormed fs" by simp
  from Cons.IH[OF this, of ?q] obtain as where
    as: "forEach (\<lambda>f. addDownloadLink f None) fs ?q =
           Returns (?q\<lparr>downloadLinks := downloadLinks ?q @ as\<rparr>)"
    and rel: "list_all2 (\<lambda>f a. \<exists>enc. encodeURIComponent f = Inr enc \<and>
                     a = \<lparr>href = js ''/download/'' @ enc,
                          textContent = split_pop f,
                          download = split_pop f\<rparr>) fs as"
    by blast
  have "forEach (\<lambda>f. addDownloadLink f None) (f # fs) p =
          Returns (p\<lparr>downloadLinks := downloadLinks p @ (?a # as)\<rparr>)"
    using step as by (simp add: and_then_def)
  moreover have "list_all2 (\<lambda>f a. \<exists>enc. encodeURIComponent f = Inr enc \<and>
                     a = \<lparr>href = js ''/download/'' @ enc,
                          textContent = split_pop f,
                          download = split_pop f\<rparr>) (f # fs) (?a # as)"
    using rel enc by simp
  ultimately show ?case by blast
qed

lemma activateTab_other_class:
  assumes "activateTab button p = Returns p' \<or> activateTab button p = Throws e p'"
    and "u \<noteq> ''active''"
  shows "has_class p' j u = has_class p j u"
  using assms
  by (auto simp: activateTab_def Let_def has_class_add has_class_fold_remove split: option.splits)

lemma catch_block_fields [simp]:
  "loadingDiv (catch_block e p) = loadingDiv p"
  "resultDiv (catch_block e p) = resultDiv p"
  "tabButtons (catch_block e p) = tabButtons p"
  "tabContents (catch_block e p) = tabContents p"
  "outputPre (catch_block e p) = outputPre p"
  "fileList (catch_block e p) = fileList p"
  "downloadLinks (catch_block e p) = downloadLinks p"
  "alerts (catch_block e p) = alerts p @ [''An error occurred. Please try again.'']"
  "console (catch_block e p) = console p @ [e]"
  "length (nodes (catch_block e p)) = length (nodes p)"
  by (simp_all add: catch_block_def)

lemma has_class_catch_block:
  "has_class (catch_block e p) j u \<longleftrightarrow>
     has_class p j u \<or> (j = loadingDiv p \<and> loadingDiv p < length (nodes p) \<and> u = ''hidden'')"
  by (auto simp: catch_block_def has_class_def nth_classList_add)

lemma try_block_success:
  assumes "list_all isWellFormed (created_files d)" and "isWellFormed (log_file d)"
  shows "\<exists>as enc.
     list_all2 (\<lambda>f a. \<exists>enc. encodeURIComponent f = Inr enc \<and>
                     a = \<lparr>href = js ''/download/'' @ enc,
                          textContent = split_pop f,
                          download = split_pop f\<rparr>) (created_files d) as \<and>
     encodeURIComponent (log_file d) = Inr enc \<and>
     try_block (Response True (Some d)) p =
       activateTab (js_index (tabButtons p) 0)
         (classList_add (loadingDiv p) ''hidden''
            (classList_remove (resultDiv p) ''hidden''
               (p\<lparr>outputPre := refined_output d,
                  fileList := map (\<lambda>f. \<lparr>li_textContent = split_pop f\<rparr>) (created_files d),
                  downloadLinks := as @
                    [\<lparr>href = js ''/download/'' @ enc,
                      textContent = js ''Log File'',
                      download = split_pop (log_file d)\<rparr>]\<rparr>)))"
proof -
  let ?p3 = "p\<lparr>outputPre := refined_output d,
                fileList := map (\<lambda>f. \<lparr>li_textContent = split_pop f\<rparr>) (created_files d),
                downloadLinks := []\<rparr>"
  from forEach_addDownloadLink[OF assms(1), of ?p3] obtain as where
    as: "forEach (\<lambda>f. addDownloadLink f None) (created_files d) ?p3 =
          Returns (?p3\<lparr>downloadLinks := downloadLinks ?p3 @ as\<rparr>)"
    and rel: "list_all2 (\<lambda>f a. \<exists>enc. encodeURIComponent f = Inr enc \<and>
                     a = \<lparr>href = js ''/download/'' @ enc,
                          textContent = split_pop f,
                          download = split_pop f\<rparr>) (created_files d) as"
    by blast
  from assms(2) obtain enc where enc: "encodeURIComponent (log_file d) = Inr enc"
    using encodeURIComponent_returns by blast
  have nonempty: "js ''Log File'' \<noteq> []" by (simp add: js_def)
  have "try_block (Response True (Some d)) p =
       activateTab (js_index (tabButtons p) 0)
         (classList_add (loadingDiv p) ''hidden''
            (classList_remove (resultDiv p) ''hidden''
               (p\<lparr>outputPre := refined_output d,
                  fileList := map (\<lambda>f. \<lparr>li_textContent = split_pop f\<rparr>) (created_files d),
                  downloadLinks := as @
                    [\<lparr>href = js ''/download/'' @ enc,
                      textContent = js ''Log File'',
                      download = split_pop (log_file d)\<rparr>]\<rparr>)))"
    using as nonempty
    by (simp add: try_block_def Let_def fold_appendChild_li and_then_def
        addDownloadLink_returns[OF enc] js_or_def)
  with rel enc show ?thesis by blast
qed

lemma submit_begin_fields [simp]:
  "loadingDiv (submit_begin p) = loadingDiv p"
  "resultDiv (submit_begin p) = resultDiv p"
  "tabButtons (submit_begin p) = tabButtons p"
  "tabContents (submit_begin p) = tabContents p"
  "outputPre (submit_begin p) = outputPre p"
  "fileList (submit_begin p) = fileList p"
  "downloadLinks (submit_begin p) = downloadLinks p"
  "alerts (submit_begin p) = alerts p"
  "console (submit_begin p) = console p"
  "length (nodes (submit_begin p)) = length (nodes p)"
  by (simp_all add: submit_begin_def)

lemma wf_submit_begin [simp]: "wf_page (submit_begin p) = wf_page p"
  by (simp add: wf_page_def)

lemma has_class_submit_begin:
  "wf_page p \<Longrightarrow> has_class (submit_begin p) (resultDiv p) ''hidden''"
  by (simp add: submit_begin_def wf_page_def has_class_add)

lemma submit_settle_success:
  assumes "list_all isWellFormed (created_files d)" and "isWellFormed (log_file d)"
  shows "\<exists>as enc.
     list_all2 (\<lambda>f a. \<exists>enc. encodeURIComponent f = Inr enc \<and>
                     a = \<lparr>href = js ''/download/'' @ enc,
                          textContent = split_pop f,
                          download = split_pop f\<rparr>) (created_files d) as \<and>
     encodeURIComponent (log_file d) = Inr enc \<and>
     outputPre (submit_settle (Response True (Some d)) p) = refined_output d \<and>
     fileList (submit_settle (Response True (Some d)) p) =
       map (\<lambda>f. \<lparr>li_textContent = split_pop f\<rparr>) (created_files d) \<and>
     downloadLinks (submit_settle (Response True (Some d)) p) =
       as @ [\<lparr>href = js ''/download/'' @ enc,
               textContent = js ''Log File'',
               download = split_pop (log_file d)\<rparr>]"
proof -
  let ?p0 = "p"
  from try_block_success[OF assms, of ?p0] obtain as enc where
    rel: "list_all2 (\<lambda>f a. \<exists>enc. encodeURIComponent f = Inr enc \<and>
                     a = \<lparr>href = js ''/download/'' @ enc,
                          textContent = split_pop f,
                          download = split_pop f\<rparr>) (created_files d) as"
    and enc: "encodeURIComponent (log_file d) = Inr enc"
    and tb: "try_block (Response True (Some d)) ?p0 =
       activateTab (js_index (tabButtons ?p0) 0)
         (classList_add (loadingDiv ?p0) ''hidden''
            (classList_remove (resultDiv ?p0) ''hidden''
               (?p0\<lparr>outputPre := refined_output d,
                  fileList := map (\<lambda>f. \<lparr>li_textContent = split_pop f\<rparr>) (created_files d),
                  downloadLinks := as @
                    [\<lparr>href = js ''/download/'' @ enc,
                      textContent = js ''Log File'',
                      download = split_pop (log_file d)\<rparr>]\<rparr>)))"
    by blast
  let ?p6 = "classList_add (loadingDiv ?p0) ''hidden''
            (classList_remove (resultDiv ?p0) ''hidden''
               (?p0\<lparr>outputPre := refined_output d,
                  fileList := map (\<lambda>f. \<lparr>li_textContent = split_pop f\<rparr>) (created_files d),
                  downloadLinks := as @
                    [\<lparr>href = js ''/download/'' @ enc,
                      textContent = js ''Log File'',
                      download = split_pop (log_file d)\<rparr>]\<rparr>))"
  have "outputPre (submit_settle (Response True (Some d)) p) = refined_output d \<and>
     fileList (submit_settle (Response True (Some d)) p) =
       map (\<lambda>f. \<lparr>li_textContent = split_pop f\<rparr>) (created_files d) \<and>
     downloadLinks (submit_settle (Response True (Some d)) p) =
       as @ [\<lparr>href = js ''/download/'' @ enc,
               textContent = js ''Log File'',
               download = split_pop (log_file d)\<rparr>]"
  proof (cases "activateTab (js_index (tabButtons ?p0) 0) ?p6")
    case (Returns q)
    from activateTab_fields[OF disjI1, OF Returns] tb Returns show ?thesis
      by (simp add: submit_settle_def)
  next
    case (Throws e q)
    from activateTab_fields[OF disjI2, OF Throws] tb Throws show ?thesis
      by (simp add: submit_settle_def)
  qed
  with rel enc show ?thesis by blast
qed

lemma submit_settle_success_visible:
  assumes "list_all isWellFormed (created_files d)" and "isWellFormed (log_file d)"
    and "wf_page p"
  shows "\<not> has_class (submit_settle (Response True (Some d)) p) (resultDiv p) ''hidden''"
proof -
  let ?p0 = "p"
  from try_block_success[OF assms(1,2), of ?p0] obtain as enc where
    tb: "try_block (Response True (Some d)) ?p0 =
       activateTab (js_index (tabButtons ?p0) 0)
         (classList_add (loadingDiv ?p0) ''hidden''
            (classList_remove (resultDiv ?p0) ''hidden''
               (?p0\<lparr>outputPre := refined_output d,
                  fileList := map (\<lambda>f. \<lparr>li_textContent = split_pop f\<rparr>) (created_files d),
                  downloadLinks := as @
                    [\<lparr>href = js ''/download/'' @ enc,
                      textContent = js ''Log File'',
                      download = split_pop (log_file d)\<rparr>]\<rparr>)))"
    by blast
  let ?p5 = "?p0\<lparr>outputPre := refined_output d,
                  fileList := map (\<lambda>f. \<lparr>li_textContent = split_pop f\<rparr>) (created_files d),
                  downloadLinks := as @
                    [\<lparr>href = js ''/download/'' @ enc,
                      textContent = js ''Log File'',
                      download = split_pop (log_file d)\<rparr>]\<rparr>"
  let ?p6 = "classList_add (loadingDiv ?p0) ''hidden'' (classList_remove (resultDiv ?p0) ''hidden'' ?p5)"
  have wf: "resultDiv p < length (nodes p)" "loadingDiv p \<noteq> resultDiv p"
    using assms(3) by (simp_all add: wf_page_def)
  have nodes5: "nodes ?p5 = nodes ?p0" by simp
  have hidden6: "\<not> has_class ?p6 (resultDiv p) ''hidden''"
    using wf by (simp add: has_class_add has_class_remove)
  show ?thesis
  proof (cases "activateTab (js_index (tabButtons ?p0) 0) ?p6")
    case (Returns q)
    from activateTab_other_class[OF disjI1, OF Returns, of "''hidden''" "resultDiv p"] hidden6 tb Returns
    show ?thesis by (simp add: submit_settle_def)
  next
    case (Throws e q)
    from activateTab_other_class[OF disjI2, OF Throws, of "''hidden''" "resultDiv p"]
      activateTab_fields[OF disjI2, OF Throws] hidden6 tb Throws wf
    show ?thesis by (simp add: submit_settle_def has_class_catch_block)
  qed
qed

lemma try_block_reads_three_fields:
  assumes "refined_output d' = refined_output d" and "created_files d' = created_files d"
    and "log_file d' = log_file d"
  shows "try_block (Response True (Some d')) p = try_block (Response True (Some d)) p"
  using assms by (simp add: try_block_def)



lemma submit_settle_failure:
  assumes "wf_page p" and "r = Rejected \<or> r = Response False body \<or> r = Response True None"
  shows "alerts (submit_settle r p) = alerts p @ [''An error occurred. Please try again.''] \<and>
         has_class (submit_settle r p) (loadingDiv p) ''hidden'' \<and>
         has_class (submit_settle r p) (resultDiv p) ''hidden'' =
           has_class p (resultDiv p) ''hidden'' \<and>
         outputPre (submit_settle r p) = outputPre p \<and>
         fileList (submit_settle r p) = fileList p \<and>
         downloadLinks (submit_settle r p) = downloadLinks p"
proof -
  from assms(2) obtain e where "try_block r p = Throws e p"
    by (auto simp: try_block_def)
  then have s: "submit_settle r p = catch_block e p" by (simp add: submit_settle_def)
  have "loadingDiv p < length (nodes p)" "loadingDiv p \<noteq> resultDiv p"
    using assms(1) by (simp_all add: wf_page_def)
  then show ?thesis unfolding s
    by (auto simp: has_class_catch_block)
qed

lemma forEach_addDownloadLink_throws:
  "\<not> list_all isWellFormed files \<Longrightarrow>
   \<exists>as. forEach (\<lambda>f. addDownloadLink f None) files p =
          Throws URIError (p\<lparr>downloadLinks := downloadLinks p @ as\<rparr>)"
proof (induction files arbitrary: p)
  case Nil
  then show ?case by simp
next
  case (Cons f fs)
  show ?case
  proof (cases "isWellFormed f")
    case False
    have "forEach (\<lambda>f. addDownloadLink f None) (f # fs) p =
            Throws URIError (p\<lparr>downloadLinks := downloadLinks p @ []\<rparr>)"
      by (simp add: addDownloadLink_throws[OF False] and_then_def)
    then show ?thesis by blast
  next
    case True
    then obtain enc where enc: "encodeURIComponent f = Inr enc"
      using encodeURIComponent_returns by auto
    let ?a = "\<lparr>href = js ''/download/'' @ enc, textContent = js_or None (split_pop f),
               download = split_pop f\<rparr>"
    let ?q = "p\<lparr>downloadLinks := downloadLinks p @ [?a]\<rparr>"
    from True Cons.prems have "\<not> list_all isWellFormed fs" by simp
    from Cons.IH[OF this, of ?q] obtain as where
      "forEach (\<lambda>f. addDownloadLink f None) fs ?q =
         Throws URIError (?q\<lparr>downloadLinks := downloadLinks ?q @ as\<rparr>)"
      by blast
    then have "forEach (\<lambda>f. addDownloadLink f None) (f # fs) p =
         Throws URIError (p\<lparr>downloadLinks := downloadLinks p @ (?a # as)\<rparr>)"
      by (simp add: addDownloadLink_returns[OF enc] and_then_def)
    then show ?thesis by blast
  qed
qed

lemma try_block_ill_formed:
  assumes "\<not> (list_all isWellFormed (created_files d) \<and> isWellFormed (log_file d))"
  shows "\<exists>as. try_block (Response True (Some d)) p =
           Throws URIError
             (p\<lparr>outputPre := refined_output d,
                fileList := map (\<lambda>f. \<lparr>li_textContent = split_pop f\<rparr>) (created_files d),
                downloadLinks := as\<rparr>)"
proof (cases "list_all isWellFormed (created_files d)")
  case False
  let ?p3 = "p\<lparr>outputPre := refined_output d,
                fileList := map (\<lambda>f. \<lparr>li_textContent = split_pop f\<rparr>) (created_files d),
                downloadLinks := []\<rparr>"
  from forEach_addDownloadLink_throws[OF False, of ?p3] obtain as where
    "forEach (\<lambda>f. addDownloadLink f None) (created_files d) ?p3 =
          Throws URIError (?p3\<lparr>downloadLinks := downloadLinks ?p3 @ as\<rparr>)"
    by blast
  then have "try_block (Response True (Some d)) p =
      Throws URIError (?p3\<lparr>downloadLinks := downloadLinks ?p3 @ as\<rparr>)"
    by (simp add: try_block_def Let_def fold_appendChild_li and_then_def)
  then show ?thesis by auto
next
  case True
  with assms have lg: "\<not> isWellFormed (log_file d)" by simp
  let ?p3 = "p\<lparr>outputPre := refined_output d,
                fileList := map (\<lambda>f. \<lparr>li_textContent = split_pop f\<rparr>) (created_files d),
                downloadLinks := []\<rparr>"
  from forEach_addDownloadLink[OF True, of ?p3] obtain as where
    "forEach (\<lambda>f. addDownloadLink f None) (created_files d) ?p3 =
          Returns (?p3\<lparr>downloadLinks := downloadLinks ?p3 @ as\<rparr>)"
    by blast
  then have "try_block (Response True (Some d)) p =
      Throws URIError (?p3\<lparr>downloadLinks := downloadLinks ?p3 @ as\<rparr>)"
    by (simp add: try_block_def Let_def fold_appendChild_li and_then_def
        addDownloadLink_throws[OF lg])
  then show ?thesis by auto
qed

lemma try_block_throws_frame:
  assumes "\<forall>d. r = Response True (Some d) \<longrightarrow>
             \<not> (list_all isWellFormed (created_files d) \<and> isWellFormed (log_file d))"
  shows "\<exists>e q. try_block r p = Throws e q \<and> nodes q = nodes p \<and>
           loadingDiv q = loadingDiv p \<and> resultDiv q = resultDiv p \<and>
           tabButtons q = tabButtons p \<and> tabContents q = tabContents p"
proof (cases r)
  case Rejected
  then show ?thesis by (simp add: try_block_def)
next
  case (Response ok body)
  show ?thesis
  proof (cases "ok \<and> body \<noteq> None")
    case False
    with Response show ?thesis by (auto simp: try_block_def)
  next
    case True
    then obtain d where r: "r = Response True (Some d)" using Response by auto
    with assms try_block_ill_formed[of d p] obtain as where
      "try_block r p = Throws URIError
             (p\<lparr>outputPre := refined_output d,
                fileList := map (\<lambda>f. \<lparr>li_textContent = split_pop f\<rparr>) (created_files d),
                downloadLinks := as\<rparr>)"
      by blast
    then show ?thesis by simp
  qed
qed


lemma load_wf: "load doc = Some p \<Longrightarrow> wf_page p"
proof -
  assume l: "load doc = Some p"
  then obtain i r where i: "getElementById ''loading'' (elements doc) = Some i"
    and r: "getElementById ''result'' (elements doc) = Some r"
    and p: "p = \<lparr>nodes = elements doc, loadingDiv = i, resultDiv = r,
                 tabButtons = querySelectorAll_class ''tab-btn'' (elements doc),
                 tabContents = querySelectorAll_class ''tab-content'' (elements doc),
                 outputPre = pre_text doc, fileList = list_items doc,
                 downloadLinks = links doc, alerts = [], console = []\<rparr>"
    by (auto simp: load_def split: option.splits)
  have "i \<noteq> r"
    using getElementById_id[OF i] getElementById_id[OF r] by auto
  with getElementById_less[OF i] getElementById_less[OF r] show ?thesis
    by (simp add: p wf_page_def querySelectorAll_class_def list_all_iff)
qed

lemma load_sample: "load sample_document = Some sample_page"
  by code_simp

lemma wf_catch_block [simp]: "wf_page (catch_block e p) = wf_page p"
  by (simp add: wf_page_def)

lemma wf_submit_settle: "wf_page p \<Longrightarrow> wf_page (submit_settle r p)"
proof -
  assume wf: "wf_page p"
  let ?p0 = "p"
  have wf0: "wf_page ?p0" using wf by simp
  show ?thesis
  proof (cases "\<forall>d. r = Response True (Some d) \<longrightarrow>
             \<not> (list_all isWellFormed (created_files d) \<and> isWellFormed (log_file d))")
    case True
    from try_block_throws_frame[OF True, of ?p0] obtain e q where
      "try_block r ?p0 = Throws e q" "wf_page q"
      using wf0 by (auto simp: wf_page_def)
    then show ?thesis by (simp add: submit_settle_def)
  next
    case False
    then obtain d where r: "r = Response True (Some d)"
      and wfd: "list_all isWellFormed (created_files d)" "isWellFormed (log_file d)"
      by blast
    from try_block_success[OF wfd, of ?p0] obtain as enc where
      tb: "try_block (Response True (Some d)) ?p0 =
       activateTab (js_index (tabButtons ?p0) 0)
         (classList_add (loadingDiv ?p0) ''hidden''
            (classList_remove (resultDiv ?p0) ''hidden''
               (?p0\<lparr>outputPre := refined_output d,
                  fileList := map (\<lambda>f. \<lparr>li_textContent = split_pop f\<rparr>) (created_files d),
                  downloadLinks := as @
                    [\<lparr>href = js ''/download/'' @ enc,
                      textContent = js ''Log File'',
                      download = split_pop (log_file d)\<rparr>]\<rparr>)))"
      by blast
    let ?p6 = "classList_add (loadingDiv ?p0) ''hidden''
            (classList_remove (resultDiv ?p0) ''hidden''
               (?p0\<lparr>outputPre := refined_output d,
                  fileList := map (\<lambda>f. \<lparr>li_textContent = split_pop f\<rparr>) (created_files d),
                  downloadLinks := as @
                    [\<lparr>href = js ''/download/'' @ enc,
                      textContent = js ''Log File'',
                      download = split_pop (log_file d)\<rparr>]\<rparr>))"
    have wf6: "wf_page ?p6" using wf by (simp add: wf_page_def)
    show ?thesis
    proof (cases "activateTab (js_index (tabButtons ?p0) 0) ?p6")
      case (Returns q)
      from activateTab_fields[OF disjI1, OF Returns] wf6 have "wf_page q"
        by (simp add: wf_page_def)
      with tb Returns r show ?thesis by (simp add: submit_settle_def)
    next
      case (Throws e q)
      from activateTab_fields[OF disjI2, OF Throws] wf6 have "wf_page q"
        by (simp add: wf_page_def)
      with tb Throws r show ?thesis by (simp add: submit_settle_def)
    qed
  qed
qed

lemma submit_failure:
  assumes "wf_page p" and "r = Rejected \<or> r = Response False body \<or> r = Response True None"
  shows "alerts (submit r p) = alerts p @ [''An error occurred. Please try again.''] \<and>
         has_class (submit r p) (resultDiv p) ''hidden''"
  using submit_settle_failure[of "submit_begin p" r body] assms has_class_submit_begin[of p]
  by (simp add: submit_def)

lemma submit_success_visible:
  assumes "list_all isWellFormed (created_files d)" and "isWellFormed (log_file d)"
    and "wf_page p"
  shows "\<not> has_class (submit (Response True (Some d)) p) (resultDiv p) ''hidden''"
  using submit_settle_success_visible[OF assms(1,2), of "submit_begin p"] assms(3)
  by (simp add: submit_def)

lemma wf_submit: "wf_page p \<Longrightarrow> wf_page (submit r p)"
  by (simp add: submit_def wf_submit_settle)

lemma wf_tab_click: "wf_page p \<Longrightarrow> wf_page (tab_click b p)"
proof -
  assume wf: "wf_page p"
  show ?thesis
  proof (cases "activateTab (Some b) p")
    case (Returns q)
    from activateTab_fields[OF disjI1, OF Returns] wf show ?thesis
      by (simp add: tab_click_def Returns wf_page_def)
  next
    case (Throws e q)
    from activateTab_fields[OF disjI2, OF Throws] wf show ?thesis
      by (simp add: tab_click_def Throws wf_page_def)
  qed
qed

section \<open>Properties of the modelled pipeline\<close>

lemma attempts_Some:
  "attempts n i call accept = Some v \<Longrightarrow> \<exists>j text. call j = Completed text \<and> accept text = Some v"
  by (induction n arbitrary: i) (auto split: completion.splits option.splits)



lemma sample_decompose:
  "decompose sample_config sample_parse_subtasks sample_complete sample_objective =
     Inr [sample_task 0, sample_task 1]"
  by (simp add: decompose_def sample_config_def sample_parse_subtasks_def sample_complete_def
      numeral_3_eq_3)

section \<open>The claims about \<^verbatim>\<open>static/script.js\<close>\<close>

text \<open>
  Claim C1, as amended. Whenever a response with \<^verbatim>\<open>ok\<close> set and a body
  that parses arrives, in whatever state the page is then, and no path (no
  element of \<^verbatim>\<open>created_files\<close>, nor \<^verbatim>\<open>log_file\<close>) has an unpaired surrogate
  code unit, the listener consumes exactly the three fields of the contract:
  the output text becomes \<^verbatim>\<open>refined_output\<close> as it is, the file list gets
  one entry per element of \<^verbatim>\<open>created_files\<close> (its last path segment), the
  last download link is the one of \<^verbatim>\<open>log_file\<close>, labelled \<^verbatim>\<open>Log File\<close>, and
  the result section is shown. Two bodies that agree on the three fields
  leave the same page, whatever else they carry.
\<close>

theorem submit_consumes_three_fields:
  "list_all isWellFormed (created_files d) \<Longrightarrow> isWellFormed (log_file d) \<Longrightarrow> wf_page p \<Longrightarrow>
   outputPre (submit_settle (Response True (Some d)) p) = refined_output d \<and>
   map li_textContent (fileList (submit_settle (Response True (Some d)) p)) =
     map split_pop (created_files d) \<and>
   (\<exists>enc. encodeURIComponent (log_file d) = Inr enc \<and>
      downloadLinks (submit_settle (Response True (Some d)) p) \<noteq> [] \<and>
      last (downloadLinks (submit_settle (Response True (Some d)) p)) =
        \<lparr>href = js ''/download/'' @ enc,
         textContent = js ''Log File'',
         download = split_pop (log_file d)\<rparr>) \<and>
   \<not> has_class (submit_settle (Response True (Some d)) p) (resultDiv p) ''hidden'' \<and>
   (\<forall>d' :: 'b data_scheme. refined_output d' = refined_output d \<and> created_files d' = created_files d \<and>
         log_file d' = log_file d \<longrightarrow>
         submit_settle (Response True (Some d')) p = submit_settle (Response True (Some d)) p)"
proof -
  assume wfd: "list_all isWellFormed (created_files d)" "isWellFormed (log_file d)"
    and wf: "wf_page p"
  from submit_settle_success[OF wfd, of p] obtain as enc where
    enc: "encodeURIComponent (log_file d) = Inr enc"
    and out: "outputPre (submit_settle (Response True (Some d)) p) = refined_output d"
    and fl: "fileList (submit_settle (Response True (Some d)) p) =
       map (\<lambda>f. \<lparr>li_textContent = split_pop f\<rparr>) (created_files d)"
    and dl: "downloadLinks (submit_settle (Response True (Some d)) p) =
       as @ [\<lparr>href = js ''/download/'' @ enc,
               textContent = js ''Log File'',
               download = split_pop (log_file d)\<rparr>]"
    by blast
  have "map li_textContent (fileList (submit_settle (Response True (Some d)) p)) =
     map split_pop (created_files d)"
    by (simp add: fl comp_def)
  moreover have "\<forall>d' :: 'b data_scheme. refined_output d' = refined_output d \<and> created_files d' = created_files d \<and>
         log_file d' = log_file d \<longrightarrow>
         submit_settle (Response True (Some d')) p = submit_settle (Response True (Some d)) p"
  proof (intro allI impI)
    fix d' :: "'b data_scheme"
    assume "refined_output d' = refined_output d \<and> created_files d' = created_files d \<and>
         log_file d' = log_file d"
    then have "try_block (Response True (Some d')) p = try_block (Response True (Some d)) p"
      by (intro try_block_reads_three_fields) simp_all
    then show "submit_settle (Response True (Some d')) p = submit_settle (Response True (Some d)) p"
      by (simp only: submit_settle_def)
  qed
  moreover have "downloadLinks (submit_settle (Response True (Some d)) p) \<noteq> [] \<and>
      last (downloadLinks (submit_settle (Response True (Some d)) p)) =
        \<lparr>href = js ''/download/'' @ enc,
         textContent = js ''Log File'',
         download = split_pop (log_file d)\<rparr>"
    by (simp add: dl)
  ultimately show ?thesis
    using enc out submit_settle_success_visible[OF wfd wf] by blast
qed

theorem submit_consumes_three_fields_witness:
  "list_all isWellFormed [js ''out/main.py''] \<and> isWellFormed (js ''out/log.md'') \<and>
   wf_page sample_page \<and>
   outputPre (submit_settle (Response True (Some \<lparr>refined_output = js ''done'',
       created_files = [js ''out/main.py''], log_file = js ''out/log.md''\<rparr>)) sample_page) = js ''done'' \<and>
   map li_textContent (fileList (submit_settle (Response True (Some \<lparr>refined_output = js ''done'',
       created_files = [js ''out/main.py''], log_file = js ''out/log.md''\<rparr>)) sample_page)) = [js ''main.py''] \<and>
   \<not> has_class (submit_settle (Response True (Some \<lparr>refined_output = js ''done'',
       created_files = [js ''out/main.py''], log_file = js ''out/log.md''\<rparr>)) sample_page) 1 ''hidden''"
proof -
  let ?d = "\<lparr>refined_output = js ''done'', created_files = [js ''out/main.py''],
             log_file = js ''out/log.md''\<rparr>"
  have h1: "list_all isWellFormed (created_files ?d)" by code_simp
  have h2: "isWellFormed (log_file ?d)" by code_simp
  have wf: "wf_page sample_page" by code_simp
  have s: "split_pop (js ''out/main.py'') = js ''main.py''" by code_simp
  have r: "resultDiv sample_page = 1" by (simp add: sample_page_def)
  note th = submit_consumes_three_fields[OF h1 h2 wf]
  have a: "outputPre (submit_settle (Response True (Some ?d)) sample_page) = js ''done''"
    using th[THEN conjunct1] by simp
  have b: "map li_textContent (fileList (submit_settle (Response True (Some ?d)) sample_page)) = [js ''main.py'']"
    using th[THEN conjunct2, THEN conjunct1] s by simp
  have c: "\<not> has_class (submit_settle (Response True (Some ?d)) sample_page) 1 ''hidden''"
    using th[THEN conjunct2, THEN conjunct2, THEN conjunct2, THEN conjunct1] r by simp
  from h1 h2 wf a b c show ?thesis by simp
qed

text \<open>
  As written the claim fails on a response whose \<^verbatim>\<open>log_file\<close> is a lone
  surrogate: \<^verbatim>\<open>encodeURIComponent\<close> throws, no link for the log file is made
  and the alert is shown; line 51 is not reached, so the result section of
  this page, hidden before, is not shown.
\<close>

theorem submit_consumes_three_fields_counterexample:
  "downloadLinks (submit_settle (Response True (Some \<lparr>refined_output = js ''done'',
       created_files = [js ''out/main.py''], log_file = [0xDC00]\<rparr>)) sample_page) =
     [\<lparr>href = js ''/download/out%2Fmain.py'', textContent = js ''main.py'',
       download = js ''main.py''\<rparr>] \<and>
   has_class (submit_settle (Response True (Some \<lparr>refined_output = js ''done'',
       created_files = [js ''out/main.py''], log_file = [0xDC00]\<rparr>)) sample_page) 1 ''hidden'' \<and>
   alerts (submit_settle (Response True (Some \<lparr>refined_output = js ''done'',
       created_files = [js ''out/main.py''], log_file = [0xDC00]\<rparr>)) sample_page) =
     [''An error occurred. Please try again.'']"
  by code_simp

text \<open>
  Claim C2, as amended. When the request fails (\<^verbatim>\<open>fetch\<close> rejects, the
  response is not \<^verbatim>\<open>ok\<close>, or its body does not parse), the second step of
  the listener shows the alert, hides the loading indicator and changes
  nothing else that the user sees: the output text, the file list, the
  download links and the visibility of the result section stay as they were
  when the failure arrived. The first step has hidden the result section, so
  a submission during which no other event is handled ends with the alert
  and the result section hidden, while one whose response is consumed in
  full ends with the result section shown.
\<close>

theorem failed_request_alerts_and_leaves_result_section:
  "wf_page p \<Longrightarrow>
   r = Rejected \<or> r = Response False body \<or> r = Response True None \<Longrightarrow>
   alerts (submit_settle r p) = alerts p @ [''An error occurred. Please try again.''] \<and>
   has_class (submit_settle r p) (loadingDiv p) ''hidden'' \<and>
   has_class (submit_settle r p) (resultDiv p) ''hidden'' = has_class p (resultDiv p) ''hidden'' \<and>
   outputPre (submit_settle r p) = outputPre p \<and>
   fileList (submit_settle r p) = fileList p \<and>
   downloadLinks (submit_settle r p) = downloadLinks p \<and>
   has_class (submit_begin p) (resultDiv p) ''hidden'' \<and>
   has_class (submit r p) (resultDiv p) ''hidden'' \<and>
   alerts (submit r p) = alerts p @ [''An error occurred. Please try again.''] \<and>
   (\<forall>d :: 'b data_scheme. list_all isWellFormed (created_files d) \<and> isWellFormed (log_file d) \<longrightarrow>
        \<not> has_class (submit (Response True (Some d)) p) (resultDiv p) ''hidden'')"
proof -
  assume wf: "wf_page p"
    and f: "r = Rejected \<or> r = Response False body \<or> r = Response True None"
  note a = submit_settle_failure[OF wf f]
  note b = submit_failure[OF wf f]
  note c = has_class_submit_begin[OF wf]
  have d: "\<forall>d :: 'b data_scheme. list_all isWellFormed (created_files d) \<and> isWellFormed (log_file d) \<longrightarrow>
        \<not> has_class (submit (Response True (Some d)) p) (resultDiv p) ''hidden''"
    using submit_success_visible[of _ p] wf by blast
  from a b c d show ?thesis by blast
qed

theorem failed_request_alerts_and_leaves_result_section_witness:
  "wf_page sample_page \<and>
   alerts (submit (Response False (Some \<lparr>refined_output = js ''partial'', created_files = [], log_file = []\<rparr>)) sample_page) =
     [''An error occurred. Please try again.''] \<and>
   has_class (submit (Response False (Some \<lparr>refined_output = js ''partial'', created_files = [], log_file = []\<rparr>)) sample_page) 1 ''hidden'' \<and>
   outputPre (submit_settle (Response False (Some \<lparr>refined_output = js ''partial'', created_files = [], log_file = []\<rparr>)) sample_page) = []"
proof -
  let ?r = "Response False (Some \<lparr>refined_output = js ''partial'', created_files = [], log_file = []\<rparr>)"
  have wf: "wf_page sample_page" by code_simp
  have f: "alerts sample_page = []" "resultDiv sample_page = 1" "outputPre sample_page = []"
    by (simp_all add: sample_page_def)
  have r: "?r = Rejected \<or> ?r = Response False (Some \<lparr>refined_output = js ''partial'', created_files = [], log_file = []\<rparr>) \<or> ?r = Response True None"
    by simp
  note th = failed_request_alerts_and_leaves_result_section[OF wf r]
  note t3 = th[THEN conjunct2, THEN conjunct2, THEN conjunct2]
  note t7 = t3[THEN conjunct2, THEN conjunct2, THEN conjunct2, THEN conjunct2]
  have a: "alerts (submit ?r sample_page) = [''An error occurred. Please try again.'']"
    using t7[THEN conjunct2, THEN conjunct1] f by simp
  have b: "has_class (submit ?r sample_page) 1 ''hidden''"
    using t7[THEN conjunct1] f by simp
  have c: "outputPre (submit_settle ?r sample_page) = []"
    using t3[THEN conjunct1] f by simp
  from wf a b c show ?thesis by blast
qed

text \<open>
  As written the claim fails when two submissions overlap: both are started,
  the response of one is consumed and shows the result section, then the
  other fails; its alert is shown while the result section, with the output
  of the first, stays visible.
\<close>

theorem failed_request_counterexample:
  "\<not> has_class
       (submit_settle (Rejected :: unit fetched)
          (submit_settle (Response True (Some \<lparr>refined_output = js ''done'',
               created_files = [js ''out/main.py''], log_file = js ''out/log.md''\<rparr>))
             (submit_begin (submit_begin sample_page)))) 1 ''hidden'' \<and>
   alerts
       (submit_settle (Rejected :: unit fetched)
          (submit_settle (Response True (Some \<lparr>refined_output = js ''done'',
               created_files = [js ''out/main.py''], log_file = js ''out/log.md''\<rparr>))
             (submit_begin (submit_begin sample_page)))) =
     [''An error occurred. Please try again.''] \<and>
   outputPre
       (submit_settle (Rejected :: unit fetched)
          (submit_settle (Response True (Some \<lparr>refined_output = js ''done'',
               created_files = [js ''out/main.py''], log_file = js ''out/log.md''\<rparr>))
             (submit_begin (submit_begin sample_page)))) = js ''done''"
  by code_simp

text \<open>
  Claim C8, as amended. For every file path without an unpaired surrogate
  code unit and every optional label, \<^verbatim>\<open>addDownloadLink\<close> returns and leaves
  the page as it was but for one anchor appended to the download links. Its
  \<^verbatim>\<open>href\<close> is \<^verbatim>\<open>/download/\<close> followed by \<^verbatim>\<open>encodeURIComponent(file)\<close>, in which
  no \<^verbatim>\<open>/\<close> is left, so the path is one URL segment; its \<^verbatim>\<open>download\<close> attribute
  is the part of the path after its last \<^verbatim>\<open>/\<close> (the whole path when it has
  none); its text is the label when one is given and is not empty, and that
  same last segment otherwise.
\<close>

theorem addDownloadLink_appends_one_anchor:
  "isWellFormed file \<Longrightarrow>
   (\<exists>enc. encodeURIComponent file = Inr enc \<and> slash \<notin> set enc \<and>
      addDownloadLink file label p =
        Returns (p\<lparr>downloadLinks := downloadLinks p @
          [\<lparr>href = js ''/download/'' @ enc,
            textContent =
              (case label of
                 None \<Rightarrow> split_pop file
               | Some l \<Rightarrow> if l = [] then split_pop file else l),
            download = split_pop file\<rparr>]\<rparr>)) \<and>
   slash \<notin> set (split_pop file) \<and>
   (slash \<notin> set file \<longrightarrow> split_pop file = file) \<and>
   (\<forall>pre suf. file = pre @ slash # suf \<and> slash \<notin> set suf \<longrightarrow> split_pop file = suf)"
proof -
  assume "isWellFormed file"
  then obtain enc where enc: "encodeURIComponent file = Inr enc"
    using encodeURIComponent_returns by blast
  have "js_or label (split_pop file) =
        (case label of None \<Rightarrow> split_pop file | Some l \<Rightarrow> if l = [] then split_pop file else l)"
    by (simp add: js_or_def)
  with enc encodeURIComponent_no_slash[OF enc] addDownloadLink_returns[OF enc, of label p]
  show ?thesis
    by (auto simp: split_pop_slash_free split_pop_no_slash split_pop_after_last_slash)
qed

theorem addDownloadLink_appends_one_anchor_witness:
  "isWellFormed (js ''project/src/app.py'') \<and>
   addDownloadLink (js ''project/src/app.py'') None sample_page =
     Returns (sample_page\<lparr>downloadLinks :=
       [\<lparr>href = js ''/download/project%2Fsrc%2Fapp.py'',
         textContent = js ''app.py'',
         download = js ''app.py''\<rparr>]\<rparr>) \<and>
   slash \<notin> set (split_pop (js ''project/src/app.py''))"
proof -
  have h: "isWellFormed (js ''project/src/app.py'')" by code_simp
  have e: "encodeURIComponent (js ''project/src/app.py'') = Inr (js ''project%2Fsrc%2Fapp.py'')"
    by code_simp
  have s: "split_pop (js ''project/src/app.py'') = js ''app.py''" by code_simp
  have l: "downloadLinks sample_page = []" by (simp add: sample_page_def)
  show ?thesis
    using h addDownloadLink_appends_one_anchor[OF h, of None sample_page] e s l
    by (simp add: js_def)
qed

text \<open>
  The claim as it was written fails in two places: an empty label is falsy,
  so the anchor shows the last segment of the path and not the label; and a
  path with an unpaired surrogate makes \<^verbatim>\<open>encodeURIComponent\<close> throw before
  anything is appended.
\<close>

theorem addDownloadLink_counterexample:
  "addDownloadLink (js ''out/app.py'') (Some []) sample_page =
     Returns (sample_page\<lparr>downloadLinks :=
       [\<lparr>href = js ''/download/out%2Fapp.py'',
         textContent = js ''app.py'',
         download = js ''app.py''\<rparr>]\<rparr>) \<and>
   addDownloadLink [0xD800] None sample_page = Throws URIError sample_page"
proof -
  have e: "encodeURIComponent (js ''out/app.py'') = Inr (js ''out%2Fapp.py'')"
    by code_simp
  have s: "split_pop (js ''out/app.py'') = js ''app.py''" by code_simp
  have l: "downloadLinks sample_page = []" by (simp add: sample_page_def)
  have w: "\<not> isWellFormed [0xD800]" by code_simp
  show ?thesis
    using addDownloadLink_returns[OF e, of "Some []" sample_page] s l addDownloadLink_throws[OF w]
    by (simp add: js_or_def js_def)
qed

text \<open>
  Claim C9, as amended. When a response with \<^verbatim>\<open>ok\<close> set and a body that
  parses arrives, in which no path has an unpaired surrogate code unit, then
  whatever the two containers held before: the file list holds exactly one item per element of
  \<^verbatim>\<open>created_files\<close>, in order, each showing the last segment of its path;
  the download links are one link per element of \<^verbatim>\<open>created_files\<close>, in order,
  followed by the link of the log file, so there are
  \<^verbatim>\<open>created_files.length + 1\<close> of them. Nothing of an earlier submission is
  left.
\<close>

theorem submit_repopulates_lists:
  "list_all isWellFormed (created_files d) \<Longrightarrow> isWellFormed (log_file d) \<Longrightarrow>
   fileList (submit_settle (Response True (Some d)) p) =
     map (\<lambda>f. \<lparr>li_textContent = split_pop f\<rparr>) (created_files d) \<and>
   length (fileList (submit_settle (Response True (Some d)) p)) = length (created_files d) \<and>
   (\<exists>as enc.
      downloadLinks (submit_settle (Response True (Some d)) p) =
        as @ [\<lparr>href = js ''/download/'' @ enc,
                textContent = js ''Log File'',
                download = split_pop (log_file d)\<rparr>] \<and>
      encodeURIComponent (log_file d) = Inr enc \<and>
      list_all2 (\<lambda>f a. \<exists>enc. encodeURIComponent f = Inr enc \<and>
                   a = \<lparr>href = js ''/download/'' @ enc,
                        textContent = split_pop f,
                        download = split_pop f\<rparr>) (created_files d) as) \<and>
   length (downloadLinks (submit_settle (Response True (Some d)) p)) = length (created_files d) + 1"
proof -
  assume wfd: "list_all isWellFormed (created_files d)" "isWellFormed (log_file d)"
  from submit_settle_success[OF wfd, of p] obtain as enc where
    rel: "list_all2 (\<lambda>f a. \<exists>enc. encodeURIComponent f = Inr enc \<and>
                   a = \<lparr>href = js ''/download/'' @ enc,
                        textContent = split_pop f,
                        download = split_pop f\<rparr>) (created_files d) as"
    and enc: "encodeURIComponent (log_file d) = Inr enc"
    and fl: "fileList (submit_settle (Response True (Some d)) p) =
       map (\<lambda>f. \<lparr>li_textContent = split_pop f\<rparr>) (created_files d)"
    and dl: "downloadLinks (submit_settle (Response True (Some d)) p) =
       as @ [\<lparr>href = js ''/download/'' @ enc,
               textContent = js ''Log File'',
               download = split_pop (log_file d)\<rparr>]"
    by blast
  have len: "length as = length (created_files d)"
    using rel by (simp add: list_all2_lengthD)
  have "length (downloadLinks (submit_settle (Response True (Some d)) p)) = length (created_files d) + 1"
    by (simp add: dl len)
  moreover have "length (fileList (submit_settle (Response True (Some d)) p)) = length (created_files d)"
    by (simp add: fl)
  ultimately show ?thesis using rel enc fl dl by blast
qed

theorem submit_repopulates_lists_witness:
  "list_all isWellFormed [js ''out/a.py'', js ''out/b.py''] \<and> isWellFormed (js ''out/log.md'') \<and>
   length (fileList (submit_settle (Response True (Some \<lparr>refined_output = js ''second'',
       created_files = [js ''out/a.py'', js ''out/b.py''], log_file = js ''out/log.md''\<rparr>))
     (submit_settle (Response True (Some \<lparr>refined_output = js ''first'',
       created_files = [js ''old/x.py'', js ''old/y.py'', js ''old/z.py''], log_file = js ''old/log.md''\<rparr>))
       sample_page))) = 2 \<and>
   length (downloadLinks (submit_settle (Response True (Some \<lparr>refined_output = js ''second'',
       created_files = [js ''out/a.py'', js ''out/b.py''], log_file = js ''out/log.md''\<rparr>))
     (submit_settle (Response True (Some \<lparr>refined_output = js ''first'',
       created_files = [js ''old/x.py'', js ''old/y.py'', js ''old/z.py''], log_file = js ''old/log.md''\<rparr>))
       sample_page))) = 3"
proof -
  let ?d = "\<lparr>refined_output = js ''second'', created_files = [js ''out/a.py'', js ''out/b.py''],
             log_file = js ''out/log.md''\<rparr>"
  let ?p = "submit_settle (Response True (Some \<lparr>refined_output = js ''first'',
       created_files = [js ''old/x.py'', js ''old/y.py'', js ''old/z.py''], log_file = js ''old/log.md''\<rparr>))
       sample_page"
  have h1: "list_all isWellFormed (created_files ?d)" by code_simp
  have h2: "isWellFormed (log_file ?d)" by code_simp
  note th = submit_repopulates_lists[OF h1 h2, of ?p]
  have a: "length (fileList (submit_settle (Response True (Some ?d)) ?p)) = 2"
    using th[THEN conjunct2, THEN conjunct1] by simp
  have b: "length (downloadLinks (submit_settle (Response True (Some ?d)) ?p)) = 3"
    using th[THEN conjunct2, THEN conjunct2, THEN conjunct2] by simp
  from h1 h2 a b show ?thesis by simp
qed

text \<open>
  As written the claim fails when a path is not well formed: with three
  created files whose second is a lone surrogate, the loop of line 45 stops
  at it, and one link is left instead of four.
\<close>

theorem submit_repopulates_lists_counterexample:
  "length (downloadLinks (submit_settle (Response True (Some \<lparr>refined_output = js ''done'',
       created_files = [js ''a.py'', [0xD800], js ''b.py''], log_file = js ''log.md''\<rparr>)) sample_page)) = 1 \<and>
   length (created_files \<lparr>refined_output = js ''done'',
       created_files = [js ''a.py'', [0xD800], js ''b.py''], log_file = js ''log.md''\<rparr>) + 1 = 4"
  by code_simp



section \<open>The claims about the pipeline\<close>

text \<open>
  Claim C3. For every objective, whatever the model answers and however its
  answers are parsed, \<^verbatim>\<open>decompose\<close> under a configured maximum of at least one
  either raises \<^verbatim>\<open>DecompositionError\<close> or returns a sequence of sub-tasks that
  is not empty and not longer than the configured maximum; it never returns
  the empty sequence.
\<close>

theorem decompose_nonempty_within_bound_or_error:
  "1 \<le> max_subtasks cfg \<Longrightarrow>
   decompose cfg parse complete obj = Inl DecompositionError \<or>
   (\<exists>ts. decompose cfg parse complete obj = Inr ts \<and> ts \<noteq> [] \<and>
      1 \<le> length ts \<and> length ts \<le> max_subtasks cfg)"
proof (cases "attempts (max_attempts cfg) 0 (complete (obj_text obj))
             (\<lambda>text. case parse text of
                       None \<Rightarrow> None
                     | Some ts \<Rightarrow> if ts = [] then None else Some ts)")
  case None
  then show ?thesis by (simp add: decompose_def)
next
  case (Some ts)
  assume m: "1 \<le> max_subtasks cfg"
  from attempts_Some[OF Some] have "ts \<noteq> []"
    by (auto split: option.splits if_splits)
  then have "take (max_subtasks cfg) ts \<noteq> []" "1 \<le> length (take (max_subtasks cfg) ts)"
    using m by (cases ts; simp)+
  with Some show ?thesis by (simp add: decompose_def)
qed

theorem decompose_nonempty_within_bound_or_error_witness:
  "1 \<le> max_subtasks sample_config \<and>
   decompose sample_config sample_parse_subtasks sample_complete sample_objective =
     Inr [sample_task 0, sample_task 1] \<and>
   length [sample_task 0, sample_task 1] \<le> max_subtasks sample_config"
proof -
  have m: "1 \<le> max_subtasks sample_config" by (simp add: sample_config_def)
  from decompose_nonempty_within_bound_or_error[OF m, of sample_parse_subtasks sample_complete
      sample_objective] sample_decompose m
  show ?thesis by (simp add: sample_config_def)
qed




end
